theory Spec2Isabelle
  imports Complex_Main "HOL-Library.Log_Nat"
begin

section \<open>Environment configuration (config/environment.ts)\<close>

text \<open>
  JavaScript numbers are modelled as reals, counters that only ever hold natural
  numbers as \<open>nat\<close>. Comparisons of draws with percentages are taken on the exact
  products; the conversion rate that the state stores is rounded as double arithmetic
  rounds it. \<open>undefined\<close> and \<open>null\<close> are \<open>None\<close>; a thrown
  \<open>TypeError\<close> is the left injection of a sum. Fields that only feed the markup
  (labels, descriptions, colours, flag metadata, log ids and timestamps) are left out
  of the records.
\<close>

datatype Environment = development | staging | production

datatype LogLevel = debug | info | warn | error

record Features =
  analytics :: bool
  errorReporting :: bool
  experimentalFeatures :: bool

record EnvironmentConfig =
  name :: Environment
  displayName :: string
  apiUrl :: string
  debugMode :: bool
  logLevel :: LogLevel
  features :: Features

text \<open>The two entries of \<open>import.meta.env\<close> that the code reads.\<close>

record ImportMetaEnv =
  VITE_APP_ENV :: "string option"
  MODE :: string

definition getCurrentEnvironment :: "ImportMetaEnv \<Rightarrow> Environment" where
  "getCurrentEnvironment env =
     (let customEnv = VITE_APP_ENV env in
      if customEnv = Some ''staging'' then staging
      else if customEnv = Some ''production'' then production
      else if MODE env = ''production'' then production
      else development)"

text \<open>
  The table \<open>configs\<close> is an object literal indexed by the environment's name; a key
  that the literal lacked would read as \<open>undefined\<close>, so the table is a partial map.
\<close>

definition configs :: "Environment \<rightharpoonup> EnvironmentConfig" where
  "configs =
     [development \<mapsto>
        \<lparr>name = development, displayName = ''Development'',
         apiUrl = ''http://localhost:3000/api'', debugMode = True, logLevel = debug,
         features = \<lparr>analytics = False, errorReporting = False,
                     experimentalFeatures = True\<rparr>\<rparr>,
      staging \<mapsto>
        \<lparr>name = staging, displayName = ''Staging'',
         apiUrl = ''https://staging-api.example.com'', debugMode = True, logLevel = info,
         features = \<lparr>analytics = True, errorReporting = True,
                     experimentalFeatures = True\<rparr>\<rparr>,
      production \<mapsto>
        \<lparr>name = production, displayName = ''Production'',
         apiUrl = ''https://api.example.com'', debugMode = False, logLevel = error,
         features = \<lparr>analytics = True, errorReporting = True,
                     experimentalFeatures = False\<rparr>\<rparr>]"

definition getConfig :: "ImportMetaEnv \<Rightarrow> EnvironmentConfig option" where
  "getConfig env = configs (getCurrentEnvironment env)"


section \<open>Log viewer (components/LogViewer.tsx)\<close>

record LogEntry =
  level :: LogLevel
  message :: string
  source :: string

fun logLevelPriority :: "LogLevel \<Rightarrow> nat" where
  "logLevelPriority debug = 0"
| "logLevelPriority info = 1"
| "logLevelPriority warn = 2"
| "logLevelPriority error = 3"

text \<open>The user's filter: a level, or the string \<open>'all'\<close>.\<close>

datatype LevelFilter = FilterAll | FilterLevel LogLevel

definition minPriority :: "EnvironmentConfig \<Rightarrow> nat" where
  "minPriority config = (let minLogLevel = logLevel config in logLevelPriority minLogLevel)"

definition filteredLogs :: "EnvironmentConfig \<Rightarrow> LevelFilter \<Rightarrow> LogEntry list \<Rightarrow> LogEntry list" where
  "filteredLogs config flt logs =
     filter (\<lambda>log.
        let logPriority = logLevelPriority (level log);
            passesEnvFilter = (logPriority \<ge> minPriority config);
            passesUserFilter = (flt = FilterAll \<or> FilterLevel (level log) = flt)
        in passesEnvFilter \<and> passesUserFilter) logs"


section \<open>Random numbers and exceptions\<close>

text \<open>
  \<open>Math.random()\<close> reads the next number of a sequence of draws and leaves the rest;
  the sequence is a parameter of every function that draws. The engine only produces
  draws in \<open>[0, 1)\<close>; theorems that depend on it say so.
\<close>

type_synonym random_source = "nat \<Rightarrow> real"

definition Math_random :: "random_source \<Rightarrow> real \<times> random_source" where
  "Math_random rng = (rng 0, \<lambda>n. rng (Suc n))"

definition unit_draws :: "random_source \<Rightarrow> bool" where
  "unit_draws rng = (\<forall>n. 0 \<le> rng n \<and> rng n < 1)"

datatype js_error = TypeError


section \<open>Double arithmetic\<close>

text \<open>
  An arithmetic operation on JavaScript numbers returns the double nearest to the exact
  result, a tie going to the double with the even significand. \<open>toDouble\<close> is that
  rounding: \<open>binade x\<close> is the exponent \<open>e\<close> with \<open>2^e \<le> x < 2^(e + 1)\<close>, never taken
  below the exponent -1022 that the subnormal numbers share, and the doubles around
  \<open>x\<close> are the multiples of \<open>2^(e - 52)\<close>. Overflow to \<open>Infinity\<close> is left out: the
  values rounded here are quotients of counters, and a hundred times them.
\<close>

definition pow2 :: "int \<Rightarrow> real" where
  "pow2 k = (if 0 \<le> k then 2 ^ nat k else 1 / 2 ^ nat (- k))"

definition roundHalfEven :: "real \<Rightarrow> int" where
  "roundHalfEven q =
     (let n = \<lfloor>q\<rfloor>; d = q - of_int n
      in if d < 1 / 2 then n else if 1 / 2 < d then n + 1 else if even n then n else n + 1)"

definition binade :: "real \<Rightarrow> int" where
  "binade x = (if 1 \<le> x then bitlen \<lfloor>x\<rfloor> - 1 else - bitlen (\<lceil>1 / x\<rceil> - 1))"

definition toDouble :: "real \<Rightarrow> real" where
  "toDouble x =
     (if x = 0 then 0
      else let ulp = pow2 (max (binade \<bar>x\<bar>) (- 1022) - 52)
           in sgn x * (of_int (roundHalfEven (\<bar>x\<bar> / ulp)) * ulp))"


section \<open>Feature flags (config/featureFlags.ts)\<close>

record FeatureFlag =
  id_f :: string
  enabled :: "Environment \<Rightarrow> bool"
  rolloutPercentage :: "real option"

definition featureFlags :: "FeatureFlag list" where
  "featureFlags =
     [\<lparr>id_f = ''dark_mode_v2'',
       enabled = (\<lambda>e. case e of development \<Rightarrow> True | staging \<Rightarrow> True | production \<Rightarrow> False),
       rolloutPercentage = Some 100\<rparr>,
      \<lparr>id_f = ''new_dashboard'',
       enabled = (\<lambda>e. case e of development \<Rightarrow> True | staging \<Rightarrow> True | production \<Rightarrow> True),
       rolloutPercentage = Some 50\<rparr>,
      \<lparr>id_f = ''ai_suggestions'',
       enabled = (\<lambda>e. case e of development \<Rightarrow> True | staging \<Rightarrow> False | production \<Rightarrow> False),
       rolloutPercentage = None\<rparr>,
      \<lparr>id_f = ''beta_api_v2'',
       enabled = (\<lambda>e. case e of development \<Rightarrow> True | staging \<Rightarrow> True | production \<Rightarrow> False),
       rolloutPercentage = Some 25\<rparr>,
      \<lparr>id_f = ''export_pdf'',
       enabled = (\<lambda>e. case e of development \<Rightarrow> True | staging \<Rightarrow> True | production \<Rightarrow> True),
       rolloutPercentage = Some 100\<rparr>]"

text \<open>
  \<open>isFeatureEnabled\<close> reads the registry and \<open>import.meta.env\<close>, may write one warning
  to the console and may draw one random number. It returns its value, the warnings
  written and the draws that remain.
\<close>

definition isFeatureEnabled ::
  "FeatureFlag list \<Rightarrow> ImportMetaEnv \<Rightarrow> random_source \<Rightarrow> string
     \<Rightarrow> bool \<times> string list \<times> random_source" where
  "isFeatureEnabled flags menv rng flagId =
     (case find (\<lambda>f. id_f f = flagId) flags of
        None \<Rightarrow> (False, [''Feature flag \"'' @ flagId @ ''\" non trovato!''], rng)
      | Some flag \<Rightarrow>
          let currentEnv = getCurrentEnvironment menv;
              isEnabledForEnv = enabled flag currentEnv
          in if \<not> isEnabledForEnv then (False, [], rng)
             else (case rolloutPercentage flag of
                     Some p \<Rightarrow>
                       if p < 100
                       then (let (u, rng') = Math_random rng in (u * 100 < p, [], rng'))
                       else (True, [], rng)
                   | None \<Rightarrow> (True, [], rng)))"


section \<open>A/B testing simulator (components/ABTestingSimulator.tsx)\<close>

record Variant =
  id_v :: string
  conversionRate_v :: real

record ExperimentResult =
  variantId :: string
  users :: nat
  conversions :: nat
  conversionRate :: real

datatype Status = draft | running | paused | completed

record Experiment =
  id_e :: string
  rolloutPercentage_e :: real
  variants :: "Variant list"
  status :: Status

definition experiments :: "Experiment list" where
  "experiments =
     [\<lparr>id_e = ''checkout-button'', rolloutPercentage_e = 50,
       variants = [\<lparr>id_v = ''control'', conversionRate_v = 3.2\<rparr>,
                   \<lparr>id_v = ''variant-a'', conversionRate_v = 3.8\<rparr>],
       status = running\<rparr>,
      \<lparr>id_e = ''pricing-display'', rolloutPercentage_e = 25,
       variants = [\<lparr>id_v = ''control'', conversionRate_v = 2.1\<rparr>,
                   \<lparr>id_v = ''variant-a'', conversionRate_v = 2.8\<rparr>,
                   \<lparr>id_v = ''variant-b'', conversionRate_v = 2.4\<rparr>],
       status = running\<rparr>]"

text \<open>The component's state: one field for each \<open>useState\<close>.\<close>

record SimulatorState =
  selectedExperiment :: Experiment
  isSimulating :: bool
  totalUsers :: nat
  results :: "ExperimentResult list"
  rollout :: real

text \<open>
  The list of zeroed results, one for each variant, that both the initialising effect
  and \<open>resetSimulation\<close> build.
\<close>

definition zeroResults :: "Experiment \<Rightarrow> ExperimentResult list" where
  "zeroResults e =
     map (\<lambda>v. \<lparr>variantId = id_v v, users = 0, conversions = 0, conversionRate = 0\<rparr>) (variants e)"

text \<open>
  The effect that depends on \<open>selectedExperiment\<close>: it runs after the first render
  and after every render in which the selected experiment is another object.
\<close>

definition initEffect :: "SimulatorState \<Rightarrow> SimulatorState" where
  "initEffect st =
     st\<lparr>results := zeroResults (selectedExperiment st),
        rollout := rolloutPercentage_e (selectedExperiment st),
        totalUsers := 0\<rparr>"

definition mountState :: SimulatorState where
  "mountState =
     \<lparr>selectedExperiment = experiments ! 0, isSimulating = False, totalUsers = 0,
      results = [], rollout = rolloutPercentage_e (experiments ! 0)\<rparr>"

definition initialState :: SimulatorState where
  "initialState = initEffect mountState"

text \<open>
  The click on an experiment's button. Setting the state to the object it already holds
  changes nothing, so the effect runs only for another experiment. The experiments of
  the list differ pairwise, so equality of values is identity of objects there.
\<close>

definition selectExperiment :: "Experiment \<Rightarrow> SimulatorState \<Rightarrow> SimulatorState" where
  "selectExperiment expt st =
     (if expt = selectedExperiment st then st\<lparr>isSimulating := False\<rparr>
      else initEffect (st\<lparr>selectedExperiment := expt, isSimulating := False\<rparr>))"

definition adjustedRate :: "Variant \<Rightarrow> real \<Rightarrow> real" where
  "adjustedRate variant r = conversionRate_v variant + (r - 0.5) * 0.5"

definition countUser :: "bool \<Rightarrow> ExperimentResult \<Rightarrow> ExperimentResult" where
  "countUser converted r =
     (let newUsers = users r + 1;
          newConversions = conversions r + (if converted then 1 else 0)
      in r\<lparr>users := newUsers, conversions := newConversions,
           conversionRate := toDouble (toDouble (real newConversions / real newUsers) * 100)\<rparr>)"

text \<open>
  \<open>simulateUser\<close> draws up to four numbers. Reading \<open>variants[variantIndex]\<close> outside
  the array gives \<open>undefined\<close>, and reading its \<open>conversionRate\<close> then throws before
  any state is set.
\<close>

definition simulateUser ::
  "SimulatorState \<Rightarrow> random_source \<Rightarrow> js_error + (SimulatorState \<times> random_source)" where
  "simulateUser st rng =
     (let (r1, rng1) = Math_random rng;
          isInExperiment = (r1 * 100 < rollout st)
      in if \<not> isInExperiment then Inr (st, rng1)
         else
           let (r2, rng2) = Math_random rng1;
               vs = variants (selectedExperiment st);
               variantIndex = \<lfloor>r2 * real (length vs)\<rfloor>
           in if variantIndex < 0 \<or> int (length vs) \<le> variantIndex then Inl TypeError
              else
                let variant = vs ! nat variantIndex;
                    (r3, rng3) = Math_random rng2;
                    (r4, rng4) = Math_random rng3;
                    converted = (r4 * 100 < adjustedRate variant r3)
                in Inr (st\<lparr>totalUsers := totalUsers st + 1,
                           results := map (\<lambda>r. if variantId r = id_v variant
                                                 then countUser converted r else r)
                                          (results st)\<rparr>,
                        rng4))"

text \<open>\<open>simulateUser\<close> called \<open>n\<close> times in a row; the timer calls it five times a tick.\<close>

fun simulateUsers ::
  "nat \<Rightarrow> SimulatorState \<Rightarrow> random_source \<Rightarrow> js_error + (SimulatorState \<times> random_source)" where
  "simulateUsers 0 st rng = Inr (st, rng)"
| "simulateUsers (Suc n) st rng =
     (case simulateUser st rng of
        Inl e \<Rightarrow> Inl e
      | Inr (st', rng') \<Rightarrow> simulateUsers n st' rng')"



definition resetSimulation :: "SimulatorState \<Rightarrow> SimulatorState" where
  "resetSimulation st =
     st\<lparr>isSimulating := False, totalUsers := 0,
        results := zeroResults (selectedExperiment st)\<rparr>"

text \<open>\<open>Array.prototype.reduce\<close> without an initial value: it throws on the empty array.\<close>

definition reduce :: "('a \<Rightarrow> 'a \<Rightarrow> 'a) \<Rightarrow> 'a list \<Rightarrow> js_error + 'a" where
  "reduce f xs = (case xs of [] \<Rightarrow> Inl TypeError | x # rest \<Rightarrow> Inr (foldl f x rest))"

definition getWinningVariant :: "SimulatorState \<Rightarrow> js_error + ExperimentResult option" where
  "getWinningVariant st =
     (if totalUsers st < 100 then Inr None
      else map_sum id Some
             (reduce (\<lambda>a b. if conversionRate a > conversionRate b then a else b) (results st)))"

text \<open>
  The states the component can be in: the state after the first effect, and from there
  a click on one of the experiments, a move of the rollout slider, a click on start or
  pause, a click on reset, and a call of \<open>simulateUser\<close> that returns.
\<close>

inductive reachable :: "SimulatorState \<Rightarrow> bool" where
  init: "reachable initialState"
| select: "reachable st \<Longrightarrow> expt \<in> set experiments \<Longrightarrow> reachable (selectExperiment expt st)"
| slider: "reachable st \<Longrightarrow> reachable (st\<lparr>rollout := p\<rparr>)"
| toggle: "reachable st \<Longrightarrow> reachable (st\<lparr>isSimulating := \<not> isSimulating st\<rparr>)"
| reset: "reachable st \<Longrightarrow> reachable (resetSimulation st)"
| simulate: "reachable st \<Longrightarrow> simulateUser st rng = Inr (st', rng') \<Longrightarrow> reachable st'"


text \<open>
  What the counters of a state satisfy: every admitted user is counted once in the
  total and once in one variant, no variant has more conversions than users, and the
  stored rate is the double that \<open>(conversions / users) * 100\<close> evaluates to.
\<close>

definition counters_consistent :: "SimulatorState \<Rightarrow> bool" where
  "counters_consistent st \<longleftrightarrow>
     totalUsers st = sum_list (map users (results st))
     \<and> (\<forall>r \<in> set (results st).
           conversions r \<le> users r
           \<and> conversionRate r
               = (if users r = 0 then 0
                  else toDouble (toDouble (real (conversions r) / real (users r)) * 100)))"

text \<open>The results belong, in order, to the variants of a selected experiment of the list.\<close>

definition results_match :: "SimulatorState \<Rightarrow> bool" where
  "results_match st \<longleftrightarrow>
     selectedExperiment st \<in> set experiments
     \<and> map variantId (results st) = map id_v (variants (selectedExperiment st))"


section \<open>The configuration table\<close>

lemma getCurrentEnvironment_onto:
  "\<exists>env. getCurrentEnvironment env = e"
proof (cases e)
  case development
  have "getCurrentEnvironment \<lparr>VITE_APP_ENV = None, MODE = ''development''\<rparr> = development"
    by (simp add: getCurrentEnvironment_def)
  with development show ?thesis by blast
next
  case staging
  have "getCurrentEnvironment \<lparr>VITE_APP_ENV = Some ''staging'', MODE = ''development''\<rparr> = staging"
    by (simp add: getCurrentEnvironment_def)
  with staging show ?thesis by blast
next
  case production
  have "getCurrentEnvironment \<lparr>VITE_APP_ENV = None, MODE = ''production''\<rparr> = production"
    by (simp add: getCurrentEnvironment_def)
  with production show ?thesis by blast
qed

text \<open>
  Claim C8. \<open>getConfig\<close> never reads \<open>undefined\<close>: for the environment that is detected
  it returns that environment's entry of the table, with the fields written out here.
  Every environment has an entry that carries its own name, and the log level, the API
  address and the three feature switches are those of the table: development logs from
  \<open>debug\<close> with analytics off, staging logs from \<open>info\<close>, production logs from \<open>error\<close>
  with experimental features off.
\<close>

theorem configs_total_and_exact:
  "getConfig menv =
     (case getCurrentEnvironment menv of
        development \<Rightarrow>
          Some \<lparr>name = development, displayName = ''Development'',
                apiUrl = ''http://localhost:3000/api'', debugMode = True, logLevel = debug,
                features = \<lparr>analytics = False, errorReporting = False,
                            experimentalFeatures = True\<rparr>\<rparr>
      | staging \<Rightarrow>
          Some \<lparr>name = staging, displayName = ''Staging'',
                apiUrl = ''https://staging-api.example.com'', debugMode = True,
                logLevel = info,
                features = \<lparr>analytics = True, errorReporting = True,
                            experimentalFeatures = True\<rparr>\<rparr>
      | production \<Rightarrow>
          Some \<lparr>name = production, displayName = ''Production'',
                apiUrl = ''https://api.example.com'', debugMode = False, logLevel = error,
                features = \<lparr>analytics = True, errorReporting = True,
                            experimentalFeatures = False\<rparr>\<rparr>)
   \<and> getConfig menv = configs (getCurrentEnvironment menv)
   \<and> (\<exists>c. getConfig menv = Some c \<and> name c = getCurrentEnvironment menv)
   \<and> (\<exists>c. configs env = Some c \<and> name c = env)
   \<and> map_option logLevel (configs development) = Some debug
   \<and> map_option logLevel (configs staging) = Some info
   \<and> map_option logLevel (configs production) = Some error
   \<and> map_option apiUrl (configs development) = Some ''http://localhost:3000/api''
   \<and> map_option apiUrl (configs staging) = Some ''https://staging-api.example.com''
   \<and> map_option apiUrl (configs production) = Some ''https://api.example.com''
   \<and> map_option features (configs development)
         = Some \<lparr>analytics = False, errorReporting = False, experimentalFeatures = True\<rparr>
   \<and> map_option features (configs staging)
         = Some \<lparr>analytics = True, errorReporting = True, experimentalFeatures = True\<rparr>
   \<and> map_option features (configs production)
         = Some \<lparr>analytics = True, errorReporting = True, experimentalFeatures = False\<rparr>"
proof -
  have tot: "\<exists>c. configs e = Some c \<and> name c = e" for e
    by (cases e) (simp_all add: configs_def)
  have entry: "getConfig menv =
     (case getCurrentEnvironment menv of
        development \<Rightarrow>
          Some \<lparr>name = development, displayName = ''Development'',
                apiUrl = ''http://localhost:3000/api'', debugMode = True, logLevel = debug,
                features = \<lparr>analytics = False, errorReporting = False,
                            experimentalFeatures = True\<rparr>\<rparr>
      | staging \<Rightarrow>
          Some \<lparr>name = staging, displayName = ''Staging'',
                apiUrl = ''https://staging-api.example.com'', debugMode = True,
                logLevel = info,
                features = \<lparr>analytics = True, errorReporting = True,
                            experimentalFeatures = True\<rparr>\<rparr>
      | production \<Rightarrow>
          Some \<lparr>name = production, displayName = ''Production'',
                apiUrl = ''https://api.example.com'', debugMode = False, logLevel = error,
                features = \<lparr>analytics = True, errorReporting = True,
                            experimentalFeatures = False\<rparr>\<rparr>)"
    by (cases "getCurrentEnvironment menv") (simp_all add: getConfig_def configs_def)
  have same: "getConfig menv = configs (getCurrentEnvironment menv)"
    by (simp add: getConfig_def)
  have "\<exists>c. getConfig menv = Some c \<and> name c = getCurrentEnvironment menv"
    unfolding getConfig_def by (rule tot)
  moreover note tot [of env]
  ultimately show ?thesis
    using entry same by (simp add: configs_def)
qed

theorem configs_total_and_exact_witness:
  "getConfig \<lparr>VITE_APP_ENV = None, MODE = ''development''\<rparr>
     = Some \<lparr>name = development, displayName = ''Development'',
             apiUrl = ''http://localhost:3000/api'', debugMode = True, logLevel = debug,
             features = \<lparr>analytics = False, errorReporting = False,
                         experimentalFeatures = True\<rparr>\<rparr>
   \<and> getConfig \<lparr>VITE_APP_ENV = Some ''staging'', MODE = ''production''\<rparr>
     = Some \<lparr>name = staging, displayName = ''Staging'',
             apiUrl = ''https://staging-api.example.com'', debugMode = True, logLevel = info,
             features = \<lparr>analytics = True, errorReporting = True,
                         experimentalFeatures = True\<rparr>\<rparr>
   \<and> getConfig \<lparr>VITE_APP_ENV = None, MODE = ''production''\<rparr>
     = Some \<lparr>name = production, displayName = ''Production'',
             apiUrl = ''https://api.example.com'', debugMode = False, logLevel = error,
             features = \<lparr>analytics = True, errorReporting = True,
                         experimentalFeatures = False\<rparr>\<rparr>"
  using configs_total_and_exact [of "\<lparr>VITE_APP_ENV = None, MODE = ''development''\<rparr>" development]
    configs_total_and_exact [of "\<lparr>VITE_APP_ENV = Some ''staging'', MODE = ''production''\<rparr>" staging]
    configs_total_and_exact [of "\<lparr>VITE_APP_ENV = None, MODE = ''production''\<rparr>" production]
  by (simp add: getCurrentEnvironment_def)


section \<open>Admission of log entries\<close>

lemma filteredLogs_refilter:
  assumes "minPriority lo \<le> minPriority hi"
  shows "filteredLogs hi flt logs
         = filter (\<lambda>log. logLevelPriority (level log) \<ge> minPriority hi) (filteredLogs lo flt logs)"
proof -
  have "minPriority lo \<le> logLevelPriority (level l)"
    if "minPriority hi \<le> logLevelPriority (level l)" for l
    using assms that by (rule order_trans)
  then show ?thesis
    unfolding filteredLogs_def Let_def filter_filter
    by (intro filter_cong refl) auto
qed

text \<open>
  Claim C6. An entry passes the environment filter exactly when the priority of its
  level is at least the priority of the configured level, the priorities being
  \<open>debug < info < warn < error\<close>. Raising the configured level only removes entries:
  for the same log and the same user filter, what is shown under the higher level is
  a part of what is shown under the lower one, and there are no more entries of it.
\<close>

theorem filteredLogs_monotone:
  "logLevelPriority debug < logLevelPriority info
   \<and> logLevelPriority info < logLevelPriority warn
   \<and> logLevelPriority warn < logLevelPriority error
   \<and> (entry \<in> set (filteredLogs config FilterAll logs)
        \<longleftrightarrow> entry \<in> set logs
            \<and> logLevelPriority (level entry) \<ge> logLevelPriority (logLevel config))
   \<and> (logLevelPriority (logLevel lo) \<le> logLevelPriority (logLevel hi) \<longrightarrow>
        set (filteredLogs hi flt logs) \<subseteq> set (filteredLogs lo flt logs)
        \<and> length (filteredLogs hi flt logs) \<le> length (filteredLogs lo flt logs))"
proof -
  have mono: "set (filteredLogs hi flt logs) \<subseteq> set (filteredLogs lo flt logs)
        \<and> length (filteredLogs hi flt logs) \<le> length (filteredLogs lo flt logs)"
    if "logLevelPriority (logLevel lo) \<le> logLevelPriority (logLevel hi)"
  proof -
    from that have "minPriority lo \<le> minPriority hi"
      by (simp add: minPriority_def)
    from filteredLogs_refilter [OF this, of flt logs] show ?thesis
      by simp
  qed
  have mem: "entry \<in> set (filteredLogs config FilterAll logs)
        \<longleftrightarrow> entry \<in> set logs
            \<and> logLevelPriority (level entry) \<ge> logLevelPriority (logLevel config)"
    by (auto simp add: filteredLogs_def minPriority_def)
  from mono mem show ?thesis by simp
qed

theorem filteredLogs_monotone_witness:
  "logLevelPriority (logLevel (the (configs development)))
     \<le> logLevelPriority (logLevel (the (configs production)))
   \<and> filteredLogs (the (configs production)) FilterAll
        [\<lparr>level = debug, message = ''Fetching user data...'', source = ''API''\<rparr>,
         \<lparr>level = error, message = ''Database connection timeout'', source = ''Database''\<rparr>]
      = [\<lparr>level = error, message = ''Database connection timeout'', source = ''Database''\<rparr>]
   \<and> length (filteredLogs (the (configs production)) FilterAll
        [\<lparr>level = debug, message = ''Fetching user data...'', source = ''API''\<rparr>,
         \<lparr>level = error, message = ''Database connection timeout'', source = ''Database''\<rparr>])
     \<le> length (filteredLogs (the (configs development)) FilterAll
        [\<lparr>level = debug, message = ''Fetching user data...'', source = ''API''\<rparr>,
         \<lparr>level = error, message = ''Database connection timeout'', source = ''Database''\<rparr>])"
  using filteredLogs_monotone [where lo = "the (configs development)"
        and hi = "the (configs production)" and flt = FilterAll and logs =
        "[\<lparr>level = debug, message = ''Fetching user data...'', source = ''API''\<rparr>,
         \<lparr>level = error, message = ''Database connection timeout'', source = ''Database''\<rparr>]"]
  by (simp add: configs_def filteredLogs_def minPriority_def)


section \<open>Evaluation of feature flags\<close>

lemma find_flag_unique:
  "distinct (map id_f flags) \<Longrightarrow> flag \<in> set flags
   \<Longrightarrow> find (\<lambda>f. id_f f = id_f flag) flags = Some flag"
  by (induction flags) (auto simp: rev_image_eqI)

text \<open>
  Claim C3. A flag of a registry with unique ids that is switched off for the current
  environment evaluates to \<open>False\<close>, whatever its rollout percentage and whatever the
  draws; it writes no warning and draws nothing.
\<close>

theorem environment_gate_dominates:
  assumes "distinct (map id_f flags)" and "flag \<in> set flags"
    and "getCurrentEnvironment menv = env" and "\<not> enabled flag env"
  shows "isFeatureEnabled flags menv rng (id_f flag) = (False, [], rng)"
  using assms(3,4) find_flag_unique [OF assms(1,2)]
  by (simp add: isFeatureEnabled_def)

theorem environment_gate_dominates_witness:
  "distinct (map id_f featureFlags)
   \<and> featureFlags ! 3 \<in> set featureFlags
   \<and> \<not> enabled (featureFlags ! 3) production
   \<and> rolloutPercentage (featureFlags ! 3) = Some 25
   \<and> isFeatureEnabled featureFlags \<lparr>VITE_APP_ENV = None, MODE = ''production''\<rparr> (\<lambda>n. 0) ''beta_api_v2''
     = (False, [], \<lambda>n. 0)"
  using environment_gate_dominates [of featureFlags "featureFlags ! 3"
      "\<lparr>VITE_APP_ENV = None, MODE = ''production''\<rparr>" production "\<lambda>n. 0"]
  by (simp add: featureFlags_def getCurrentEnvironment_def)

text \<open>
  Claim C4. For a flag that is found and switched on for the current environment:
  without a rollout percentage, or with one of at least 100, the result is \<open>True\<close> and
  nothing is drawn; with the percentage 0 the result is \<open>False\<close> for every draw that is
  not negative; with any percentage \<open>p\<close> below 100 the result is \<open>u * 100 < p\<close> for
  the next draw \<open>u\<close> of \<open>Math.random()\<close>, which is consumed.
\<close>

theorem rollout_after_gate:
  assumes "find (\<lambda>f. id_f f = flagId) flags = Some flag"
    and "enabled flag (getCurrentEnvironment menv)"
  shows "(rolloutPercentage flag = None \<longrightarrow>
            isFeatureEnabled flags menv rng flagId = (True, [], rng))
       \<and> (\<forall>p. rolloutPercentage flag = Some p \<and> p \<ge> 100 \<longrightarrow>
            isFeatureEnabled flags menv rng flagId = (True, [], rng))
       \<and> (rolloutPercentage flag = Some 0 \<and> 0 \<le> rng 0 \<longrightarrow>
            isFeatureEnabled flags menv rng flagId = (False, [], \<lambda>n. rng (Suc n)))
       \<and> (\<forall>p. rolloutPercentage flag = Some p \<and> p < 100 \<longrightarrow>
            isFeatureEnabled flags menv rng flagId = (rng 0 * 100 < p, [], \<lambda>n. rng (Suc n)))"
  using assms by (auto simp add: isFeatureEnabled_def Math_random_def)

theorem rollout_after_gate_witness:
  "isFeatureEnabled featureFlags \<lparr>VITE_APP_ENV = None, MODE = ''development''\<rparr>
       (\<lambda>n. 3 / 10) ''ai_suggestions'' = (True, [], \<lambda>n. 3 / 10)
   \<and> isFeatureEnabled featureFlags \<lparr>VITE_APP_ENV = None, MODE = ''production''\<rparr>
       (\<lambda>n. 3 / 10) ''export_pdf'' = (True, [], \<lambda>n. 3 / 10)
   \<and> isFeatureEnabled [\<lparr>id_f = ''off'', enabled = (\<lambda>e. True), rolloutPercentage = Some 0\<rparr>]
       \<lparr>VITE_APP_ENV = None, MODE = ''production''\<rparr>
       (\<lambda>n. 3 / 10) ''off'' = (False, [], \<lambda>n. 3 / 10)
   \<and> isFeatureEnabled featureFlags \<lparr>VITE_APP_ENV = None, MODE = ''production''\<rparr>
       (\<lambda>n. 3 / 10) ''new_dashboard'' = (True, [], \<lambda>n. 3 / 10)
   \<and> isFeatureEnabled featureFlags \<lparr>VITE_APP_ENV = None, MODE = ''production''\<rparr>
       (\<lambda>n. 7 / 10) ''new_dashboard'' = (False, [], \<lambda>n. 7 / 10)"
  using
    rollout_after_gate [of "''ai_suggestions''" featureFlags "featureFlags ! 2"
      "\<lparr>VITE_APP_ENV = None, MODE = ''development''\<rparr>" "\<lambda>n. 3 / 10"]
    rollout_after_gate [of "''export_pdf''" featureFlags "featureFlags ! 4"
      "\<lparr>VITE_APP_ENV = None, MODE = ''production''\<rparr>" "\<lambda>n. 3 / 10"]
    rollout_after_gate [of "''off''"
      "[\<lparr>id_f = ''off'', enabled = (\<lambda>e. True), rolloutPercentage = Some 0\<rparr>]"
      "\<lparr>id_f = ''off'', enabled = (\<lambda>e. True), rolloutPercentage = Some 0\<rparr>"
      "\<lparr>VITE_APP_ENV = None, MODE = ''production''\<rparr>" "\<lambda>n. 3 / 10"]
    rollout_after_gate [of "''new_dashboard''" featureFlags "featureFlags ! 1"
      "\<lparr>VITE_APP_ENV = None, MODE = ''production''\<rparr>" "\<lambda>n. 3 / 10"]
    rollout_after_gate [of "''new_dashboard''" featureFlags "featureFlags ! 1"
      "\<lparr>VITE_APP_ENV = None, MODE = ''production''\<rparr>" "\<lambda>n. 7 / 10"]
  by (simp add: featureFlags_def getCurrentEnvironment_def)

text \<open>
  Claim C5. An id that no flag of the registry carries evaluates to \<open>False\<close>, and the
  call writes the warning that names the id to the console; nothing is drawn.
\<close>

theorem unknown_flag_fails_closed:
  assumes "\<forall>f \<in> set flags. id_f f \<noteq> flagId"
  shows "isFeatureEnabled flags menv rng flagId
         = (False, [''Feature flag \"'' @ flagId @ ''\" non trovato!''], rng)"
proof -
  from assms have "find (\<lambda>f. id_f f = flagId) flags = None"
    by (simp add: find_None_iff)
  then show ?thesis by (simp add: isFeatureEnabled_def)
qed

theorem unknown_flag_fails_closed_witness:
  "find (\<lambda>f. id_f f = ''dark_mode'') featureFlags = None
   \<and> isFeatureEnabled featureFlags \<lparr>VITE_APP_ENV = None, MODE = ''development''\<rparr> (\<lambda>n. 0) ''dark_mode''
     = (False, [''Feature flag \"dark_mode\" non trovato!''], \<lambda>n. 0)"
  using unknown_flag_fails_closed [of featureFlags "''dark_mode''"
      "\<lparr>VITE_APP_ENV = None, MODE = ''development''\<rparr>" "\<lambda>n. 0"]
  by (simp add: featureFlags_def)


section \<open>The simulator: leading variant\<close>

lemma foldl_keeps_last_greatest:
  fixes rate :: "'a \<Rightarrow> real"
  shows "\<exists>pre post. x # rest = pre @ foldl (\<lambda>a b. if rate a > rate b then a else b) x rest # post
           \<and> (\<forall>r \<in> set pre. rate r \<le> rate (foldl (\<lambda>a b. if rate a > rate b then a else b) x rest))
           \<and> (\<forall>r \<in> set post. rate r < rate (foldl (\<lambda>a b. if rate a > rate b then a else b) x rest))"
proof (induction rest rule: rev_induct)
  case Nil
  show ?case
    by (intro exI [of _ "[]"]) simp
next
  case (snoc b rest)
  let ?f = "\<lambda>a b. if rate a > rate b then a else b"
  let ?w = "foldl ?f x rest"
  from snoc obtain pre post where split: "x # rest = pre @ ?w # post"
    and pre: "\<forall>r \<in> set pre. rate r \<le> rate ?w"
    and post: "\<forall>r \<in> set post. rate r < rate ?w"
    by blast
  show ?case
  proof (cases "rate ?w > rate b")
    case True
    then have w: "foldl ?f x (rest @ [b]) = ?w" by simp
    from split have "x # rest @ [b] = pre @ ?w # (post @ [b])" by simp
    moreover from post True have "\<forall>r \<in> set (post @ [b]). rate r < rate ?w" by simp
    ultimately show ?thesis using pre unfolding w
      by (intro exI [of _ pre] exI [of _ "post @ [b]"]) simp
  next
    case False
    then have w: "foldl ?f x (rest @ [b]) = b" by simp
    have "\<forall>r \<in> set (x # rest). rate r \<le> rate b"
    proof
      fix r assume "r \<in> set (x # rest)"
      with split have "r \<in> set pre \<or> r = ?w \<or> r \<in> set post" by auto
      with pre post have "rate r \<le> rate ?w" by force
      with False show "rate r \<le> rate b" by simp
    qed
    then show ?thesis unfolding w
      by (intro exI [of _ "x # rest"] exI [of _ "[]"]) simp
  qed
qed

text \<open>
  Claim C1, as the code has it. \<open>getWinningVariant\<close> returns \<open>null\<close> exactly when
  fewer than 100 users were counted. From 100 users on and with at least one result it
  returns a result of the greatest conversion rate, and among several of that rate the
  one that comes last in the list: every result before it has at most its rate, every
  result after it a smaller one. (On an empty list of results \<open>reduce\<close> throws.)
\<close>

theorem getWinningVariant_last_greatest:
  "(getWinningVariant st = Inr None \<longleftrightarrow> totalUsers st < 100)
   \<and> (100 \<le> totalUsers st \<and> results st \<noteq> [] \<longrightarrow>
        (\<exists>pre w post. results st = pre @ w # post
           \<and> getWinningVariant st = Inr (Some w)
           \<and> (\<forall>r \<in> set pre. conversionRate r \<le> conversionRate w)
           \<and> (\<forall>r \<in> set post. conversionRate r < conversionRate w)))
   \<and> (100 \<le> totalUsers st \<and> results st = [] \<longrightarrow> getWinningVariant st = Inl TypeError)"
proof -
  have none: "getWinningVariant st = Inr None \<longleftrightarrow> totalUsers st < 100"
    by (cases "results st") (simp_all add: getWinningVariant_def reduce_def)
  have empty: "getWinningVariant st = Inl TypeError"
    if "100 \<le> totalUsers st" "results st = []"
    using that by (simp add: getWinningVariant_def reduce_def)
  have some: "\<exists>pre w post. results st = pre @ w # post
           \<and> getWinningVariant st = Inr (Some w)
           \<and> (\<forall>r \<in> set pre. conversionRate r \<le> conversionRate w)
           \<and> (\<forall>r \<in> set post. conversionRate r < conversionRate w)"
    if big: "100 \<le> totalUsers st" and ne: "results st \<noteq> []"
  proof -
    from ne obtain x rest where xs: "results st = x # rest"
      by (cases "results st") auto
    let ?w = "foldl (\<lambda>a b. if conversionRate a > conversionRate b then a else b) x rest"
    from big xs have win: "getWinningVariant st = Inr (Some ?w)"
      by (simp add: getWinningVariant_def reduce_def)
    from foldl_keeps_last_greatest [of x rest conversionRate]
    obtain pre post where "x # rest = pre @ ?w # post"
      and "\<forall>r \<in> set pre. conversionRate r \<le> conversionRate ?w"
      and "\<forall>r \<in> set post. conversionRate r < conversionRate ?w"
      by blast
    with win xs show ?thesis
      by (intro exI [of _ pre] exI [of _ ?w] exI [of _ post]) simp
  qed
  from none empty some show ?thesis by blast
qed

theorem getWinningVariant_last_greatest_witness:
  "getWinningVariant
     \<lparr>selectedExperiment = experiments ! 1, isSimulating = True, totalUsers = 120,
      results = [\<lparr>variantId = ''control'', users = 40, conversions = 1, conversionRate = 2.5\<rparr>,
                 \<lparr>variantId = ''variant-a'', users = 50, conversions = 2, conversionRate = 4\<rparr>,
                 \<lparr>variantId = ''variant-b'', users = 30, conversions = 0, conversionRate = 0\<rparr>],
      rollout = 25\<rparr>
   = Inr (Some \<lparr>variantId = ''variant-a'', users = 50, conversions = 2, conversionRate = 4\<rparr>)"
  using getWinningVariant_last_greatest [of
     "\<lparr>selectedExperiment = experiments ! 1, isSimulating = True, totalUsers = 120,
      results = [\<lparr>variantId = ''control'', users = 40, conversions = 1, conversionRate = 2.5\<rparr>,
                 \<lparr>variantId = ''variant-a'', users = 50, conversions = 2, conversionRate = 4\<rparr>,
                 \<lparr>variantId = ''variant-b'', users = 30, conversions = 0, conversionRate = 0\<rparr>],
      rollout = 25\<rparr>"]
  by (simp add: getWinningVariant_def reduce_def)

text \<open>
  Two variants with the same rate after 100 users: the second is returned, not the
  first.
\<close>

theorem getWinningVariant_tie_counterexample:
  "getWinningVariant
     \<lparr>selectedExperiment = experiments ! 0, isSimulating = True, totalUsers = 100,
      results = [\<lparr>variantId = ''control'', users = 50, conversions = 2, conversionRate = 4\<rparr>,
                 \<lparr>variantId = ''variant-a'', users = 50, conversions = 2, conversionRate = 4\<rparr>],
      rollout = 50\<rparr>
   = Inr (Some \<lparr>variantId = ''variant-a'', users = 50, conversions = 2, conversionRate = 4\<rparr>)
   \<and> getWinningVariant
     \<lparr>selectedExperiment = experiments ! 0, isSimulating = True, totalUsers = 100,
      results = [\<lparr>variantId = ''control'', users = 50, conversions = 2, conversionRate = 4\<rparr>,
                 \<lparr>variantId = ''variant-a'', users = 50, conversions = 2, conversionRate = 4\<rparr>],
      rollout = 50\<rparr>
   \<noteq> Inr (Some \<lparr>variantId = ''control'', users = 50, conversions = 2, conversionRate = 4\<rparr>)"
  by (simp add: getWinningVariant_def reduce_def)


section \<open>The simulator: users outside the rollout\<close>

lemma simulateUser_not_admitted:
  "rollout st \<le> rng 0 * 100 \<Longrightarrow> simulateUser st rng = Inr (st, \<lambda>n. rng (Suc n))"
  by (simp add: simulateUser_def Math_random_def)

lemma simulateUsers_rollout_zero:
  "rollout st = 0 \<Longrightarrow> unit_draws rng \<Longrightarrow> simulateUsers n st rng = Inr (st, \<lambda>k. rng (n + k))"
proof (induction n arbitrary: rng)
  case 0
  then show ?case by simp
next
  case (Suc n)
  from Suc.prems have "rollout st \<le> rng 0 * 100"
    by (simp add: unit_draws_def)
  then have step: "simulateUser st rng = Inr (st, \<lambda>k. rng (Suc k))"
    by (rule simulateUser_not_admitted)
  from Suc.prems have "unit_draws (\<lambda>k. rng (Suc k))"
    by (simp add: unit_draws_def)
  with Suc.IH [of "\<lambda>k. rng (Suc k)"] Suc.prems(1) step show ?case
    by simp
qed

text \<open>
  Claim C7. When the first draw of \<open>simulateUser\<close>, scaled to \<open>[0, 100)\<close>, is not below
  the rollout percentage, the call returns the state it was given: the total and every
  result are as before, and one draw is consumed. With the rollout at 0 and draws from
  \<open>[0, 1)\<close>, any number of calls in a row returns the state unchanged, so a total of 0
  stays 0.
\<close>

theorem simulateUser_noop_outside_rollout:
  "(rollout st \<le> rng 0 * 100 \<longrightarrow> simulateUser st rng = Inr (st, \<lambda>n. rng (Suc n)))
   \<and> (rollout st = 0 \<and> unit_draws rng \<longrightarrow>
        simulateUsers n st rng = Inr (st, \<lambda>k. rng (n + k)))"
  using simulateUser_not_admitted simulateUsers_rollout_zero by blast

theorem simulateUser_noop_outside_rollout_witness:
  "simulateUser initialState (\<lambda>n. 3 / 4) = Inr (initialState, \<lambda>n. 3 / 4)
   \<and> totalUsers (initialState\<lparr>rollout := 0\<rparr>) = 0
   \<and> simulateUsers 7 (initialState\<lparr>rollout := 0\<rparr>) (\<lambda>n. 1 / 4)
        = Inr (initialState\<lparr>rollout := 0\<rparr>, \<lambda>n. 1 / 4)"
  using simulateUser_noop_outside_rollout [of initialState "\<lambda>n. 3 / 4" 0]
    simulateUser_noop_outside_rollout [of "initialState\<lparr>rollout := 0\<rparr>" "\<lambda>n. 1 / 4" 7]
  by (simp add: initialState_def initEffect_def mountState_def experiments_def unit_draws_def)


section \<open>The simulator: reset\<close>

lemma resetSimulation_twice: "resetSimulation (resetSimulation st) = resetSimulation st"
  by (simp add: resetSimulation_def)

lemma resetSimulation_funpow: "(resetSimulation ^^ Suc n) st = resetSimulation st"
  by (induction n) (simp_all add: resetSimulation_twice)

text \<open>
  Claim C9. Resetting any number of times in a row, at least once, gives the state that
  one reset gives; in it the total is 0, there is one result for each variant of the
  selected experiment, and every result has no users, no conversions and the rate 0.
\<close>

theorem resetSimulation_idempotent:
  "(resetSimulation ^^ Suc n) st = resetSimulation st
   \<and> totalUsers (resetSimulation st) = 0
   \<and> length (results (resetSimulation st)) = length (variants (selectedExperiment st))
   \<and> (\<forall>r \<in> set (results (resetSimulation st)).
         users r = 0 \<and> conversions r = 0 \<and> conversionRate r = 0)"
  using resetSimulation_funpow [of n st]
  by (auto simp add: resetSimulation_def zeroResults_def)

theorem resetSimulation_idempotent_witness:
  "(resetSimulation ^^ Suc 2)
      \<lparr>selectedExperiment = experiments ! 0, isSimulating = True, totalUsers = 3,
       results = [\<lparr>variantId = ''control'', users = 2, conversions = 1, conversionRate = 50\<rparr>,
                  \<lparr>variantId = ''variant-a'', users = 1, conversions = 0, conversionRate = 0\<rparr>],
       rollout = 50\<rparr>
   = \<lparr>selectedExperiment = experiments ! 0, isSimulating = False, totalUsers = 0,
       results = [\<lparr>variantId = ''control'', users = 0, conversions = 0, conversionRate = 0\<rparr>,
                  \<lparr>variantId = ''variant-a'', users = 0, conversions = 0, conversionRate = 0\<rparr>],
       rollout = 50\<rparr>"
  using resetSimulation_idempotent [of 2
      "\<lparr>selectedExperiment = experiments ! 0, isSimulating = True, totalUsers = 3,
       results = [\<lparr>variantId = ''control'', users = 2, conversions = 1, conversionRate = 50\<rparr>,
                  \<lparr>variantId = ''variant-a'', users = 1, conversions = 0, conversionRate = 0\<rparr>],
       rollout = 50\<rparr>"]
  by (simp add: resetSimulation_def zeroResults_def experiments_def)


section \<open>The simulator: consistency of the counters\<close>

lemma experiments_variants:
  "e \<in> set experiments \<Longrightarrow> distinct (map id_v (variants e)) \<and> variants e \<noteq> []"
  by (auto simp add: experiments_def)

lemma variantId_countUser [simp]: "variantId (countUser c r) = variantId r"
  by (simp add: countUser_def Let_def)

lemma users_countUser [simp]: "users (countUser c r) = Suc (users r)"
  by (simp add: countUser_def Let_def)

lemma countUser_consistent:
  assumes "conversions r \<le> users r"
  shows "conversions (countUser c r) \<le> users (countUser c r)
       \<and> conversionRate (countUser c r)
           = (if users (countUser c r) = 0 then 0
              else toDouble (toDouble (real (conversions (countUser c r))
                                        / real (users (countUser c r))) * 100))"
  using assms by (simp add: countUser_def Let_def)

lemma sum_users_untouched:
  "vid \<notin> variantId ` set rs \<Longrightarrow>
     map (\<lambda>r. if variantId r = vid then countUser c r else r) rs = rs"
  by (induction rs) auto

lemma sum_users_counted_once:
  "distinct (map variantId rs) \<Longrightarrow> vid \<in> variantId ` set rs \<Longrightarrow>
     sum_list (map users (map (\<lambda>r. if variantId r = vid then countUser c r else r) rs))
       = Suc (sum_list (map users rs))"
proof (induction rs)
  case Nil
  then show ?case by simp
next
  case (Cons r rs)
  show ?case
  proof (cases "variantId r = vid")
    case True
    with Cons.prems(1) have "vid \<notin> variantId ` set rs" by auto
    then have "map (\<lambda>r. if variantId r = vid then countUser c r else r) rs = rs"
      by (rule sum_users_untouched)
    with True show ?thesis by simp
  next
    case False
    with Cons.prems have "distinct (map variantId rs)" and "vid \<in> variantId ` set rs"
      by auto
    from Cons.IH [OF this] False show ?thesis by simp
  qed
qed

lemma variant_index_in_range:
  assumes "0 \<le> r" and "r < 1" and "0 < n"
  shows "0 \<le> \<lfloor>r * real n\<rfloor> \<and> \<lfloor>r * real n\<rfloor> < int n"
proof -
  from assms have "0 \<le> r * real n" by simp
  then have lo: "0 \<le> \<lfloor>r * real n\<rfloor>" by simp
  from assms have "r * real n < 1 * real n"
    by (intro mult_strict_right_mono) simp_all
  then have "\<lfloor>r * real n\<rfloor> < int n"
    by (simp add: floor_less_iff)
  with lo show ?thesis by simp
qed

text \<open>What a call of \<open>simulateUser\<close> that returns does to the state.\<close>

lemma simulateUser_cases:
  assumes "simulateUser st rng = Inr (st', rng')"
  shows "st' = st
       \<or> (\<exists>variant c. variant \<in> set (variants (selectedExperiment st))
            \<and> st' = st\<lparr>totalUsers := totalUsers st + 1,
                        results := map (\<lambda>r. if variantId r = id_v variant
                                              then countUser c r else r) (results st)\<rparr>)"
proof (cases "rng 0 * 100 < rollout st")
  case False
  with assms show ?thesis
    by (simp add: simulateUser_def Math_random_def)
next
  case True
  let ?vs = "variants (selectedExperiment st)"
  let ?i = "\<lfloor>rng (Suc 0) * real (length ?vs)\<rfloor>"
  from assms True have range: "0 \<le> ?i" "?i < int (length ?vs)"
    by (auto simp add: simulateUser_def Math_random_def Let_def split: if_splits)
  then have "?vs ! nat ?i \<in> set ?vs"
    by (intro nth_mem) linarith
  moreover from assms True range
  have "st' = st\<lparr>totalUsers := totalUsers st + 1,
                  results := map (\<lambda>r. if variantId r = id_v (?vs ! nat ?i)
                       then countUser (rng (Suc (Suc (Suc 0))) * 100 < adjustedRate (?vs ! nat ?i) (rng (Suc (Suc 0)))) r
                       else r) (results st)\<rparr>"
    by (simp add: simulateUser_def Math_random_def Let_def)
  ultimately show ?thesis by blast
qed

lemma simulateUser_preserves:
  assumes step: "simulateUser st rng = Inr (st', rng')"
    and m: "results_match st" and c: "counters_consistent st"
  shows "results_match st' \<and> counters_consistent st'"
  using simulateUser_cases [OF step]
proof
  assume "st' = st"
  with m c show ?thesis by simp
next
  assume "\<exists>variant c. variant \<in> set (variants (selectedExperiment st))
            \<and> st' = st\<lparr>totalUsers := totalUsers st + 1,
                        results := map (\<lambda>r. if variantId r = id_v variant
                                              then countUser c r else r) (results st)\<rparr>"
  then obtain variant cv where v: "variant \<in> set (variants (selectedExperiment st))"
    and st': "st' = st\<lparr>totalUsers := totalUsers st + 1,
                        results := map (\<lambda>r. if variantId r = id_v variant
                                              then countUser cv r else r) (results st)\<rparr>"
    by blast
  let ?g = "\<lambda>r. if variantId r = id_v variant then countUser cv r else r"
  have ids: "map variantId (map ?g (results st)) = map variantId (results st)"
    by (induction "results st") (simp_all add: comp_def)
  from m have sel: "selectedExperiment st \<in> set experiments"
    and match: "map variantId (results st) = map id_v (variants (selectedExperiment st))"
    by (simp_all add: results_match_def)
  from st' sel match ids have m': "results_match st'"
    by (simp add: results_match_def)
  from experiments_variants [OF sel] match have dist: "distinct (map variantId (results st))"
    by simp
  from v have "id_v variant \<in> set (map id_v (variants (selectedExperiment st)))"
    by simp
  with match have "id_v variant \<in> variantId ` set (results st)"
    by (metis set_map)
  from sum_users_counted_once [OF dist this, of cv] c st'
  have total: "totalUsers st' = sum_list (map users (results st'))"
    by (simp add: counters_consistent_def)
  have each: "conversions r \<le> users r
           \<and> conversionRate r
               = (if users r = 0 then 0
                  else toDouble (toDouble (real (conversions r) / real (users r)) * 100))"
    if "r \<in> set (results st')" for r
  proof -
    from that st' obtain r0 where r0: "r0 \<in> set (results st)" and r: "r = ?g r0"
      by auto
    from c r0 have old: "conversions r0 \<le> users r0
           \<and> conversionRate r0
               = (if users r0 = 0 then 0
                  else toDouble (toDouble (real (conversions r0) / real (users r0)) * 100))"
      by (simp add: counters_consistent_def)
    show ?thesis
    proof (cases "variantId r0 = id_v variant")
      case True
      with r have "r = countUser cv r0" by simp
      with countUser_consistent [of r0 cv] old show ?thesis by simp
    next
      case False
      with r old show ?thesis by simp
    qed
  qed
  from total each have "counters_consistent st'"
    by (simp add: counters_consistent_def)
  with m' show ?thesis by simp
qed

lemma zeroResults_ok:
  "map variantId (zeroResults e) = map id_v (variants e)
   \<and> sum_list (map users (zeroResults e)) = 0
   \<and> (\<forall>r \<in> set (zeroResults e). users r = 0 \<and> conversions r = 0 \<and> conversionRate r = 0)"
  by (induction "variants e" arbitrary: e) (auto simp add: zeroResults_def comp_def)

lemma reachable_invariant:
  "reachable st \<Longrightarrow> results_match st \<and> counters_consistent st"
proof (induction rule: reachable.induct)
  case init
  show ?case
    using zeroResults_ok [of "experiments ! 0"]
    by (simp add: initialState_def initEffect_def mountState_def results_match_def
        counters_consistent_def) (simp add: experiments_def)
next
  case (select st expt)
  then show ?case
    using zeroResults_ok [of expt]
    by (simp add: selectExperiment_def initEffect_def results_match_def counters_consistent_def)
next
  case (slider st p)
  then show ?case by (simp add: results_match_def counters_consistent_def)
next
  case (toggle st)
  then show ?case by (simp add: results_match_def counters_consistent_def)
next
  case (reset st)
  then show ?case
    using zeroResults_ok [of "selectedExperiment st"]
    by (simp add: resetSimulation_def results_match_def counters_consistent_def)
next
  case (simulate st rng st' rng')
  then show ?case using simulateUser_preserves by blast
qed

text \<open>
  In a reachable state \<open>simulateUser\<close> never throws when the draws are in \<open>[0, 1)\<close>:
  the selected experiment has a variant and the index falls inside the array.
\<close>

lemma simulateUser_returns:
  assumes "reachable st" and "unit_draws rng"
  shows "\<exists>st' rng'. simulateUser st rng = Inr (st', rng')"
proof -
  from reachable_invariant [OF assms(1)] have "selectedExperiment st \<in> set experiments"
    by (simp add: results_match_def)
  from experiments_variants [OF this] have "0 < length (variants (selectedExperiment st))"
    by simp
  moreover from assms(2) have "0 \<le> rng (Suc 0)" "rng (Suc 0) < 1"
    by (simp_all add: unit_draws_def)
  ultimately have "0 \<le> \<lfloor>rng (Suc 0) * real (length (variants (selectedExperiment st)))\<rfloor>
      \<and> \<lfloor>rng (Suc 0) * real (length (variants (selectedExperiment st)))\<rfloor>
          < int (length (variants (selectedExperiment st)))"
    by (intro variant_index_in_range)
  then show ?thesis
    by (simp add: simulateUser_def Math_random_def Let_def)
qed

text \<open>
  How far \<open>toDouble\<close> moves a number: half a unit in the last place at most, which is
  \<open>x / 2^53\<close> for a normal \<open>x\<close>.
\<close>

lemma toDouble_exact [simp]:
  "toDouble 0 = 0" "toDouble 1 = 1" "toDouble 100 = 100"
  by (simp_all add: toDouble_def binade_def roundHalfEven_def pow2_def compute_bitlen)

lemma pow2_powr: "pow2 k = 2 powr (real_of_int k)"
proof (cases "0 \<le> k")
  case True
  then show ?thesis
    by (simp add: pow2_def powr_realpow [symmetric])
next
  case False
  then have r: "real (nat (- k)) = - real_of_int k" by simp
  have "2 powr (real_of_int k) = 1 / 2 powr (- real_of_int k)"
    by (simp add: powr_minus_divide)
  also have "\<dots> = 1 / 2 ^ nat (- k)"
    unfolding r [symmetric] by (simp add: powr_realpow)
  finally show ?thesis using False by (simp add: pow2_def)
qed

lemma pow2_binade_le:
  assumes "0 < x"
  shows "pow2 (binade x) \<le> x"
proof (cases "1 \<le> x")
  case True
  then have m: "0 < \<lfloor>x\<rfloor>" by simp
  from bitlen_bounds [OF m] have b: "2 ^ nat (bitlen \<lfloor>x\<rfloor> - 1) \<le> \<lfloor>x\<rfloor>" by simp
  from m have "1 \<le> bitlen \<lfloor>x\<rfloor>"
    by (simp add: bitlen_alt_def)
  then have "pow2 (bitlen \<lfloor>x\<rfloor> - 1) = 2 ^ nat (bitlen \<lfloor>x\<rfloor> - 1)"
    by (simp add: pow2_def)
  also have "\<dots> \<le> real_of_int \<lfloor>x\<rfloor>"
    using b by (metis of_int_le_iff of_int_numeral of_int_power)
  also have "\<dots> \<le> x" by simp
  finally show ?thesis using True by (simp add: binade_def)
next
  case False
  with assms have "1 < 1 / x" by simp
  then have n: "0 < \<lceil>1 / x\<rceil> - 1" by linarith
  let ?k = "bitlen (\<lceil>1 / x\<rceil> - 1)"
  from bitlen_bounds [OF n] have "\<lceil>1 / x\<rceil> - 1 < 2 ^ nat ?k" by simp
  then have "\<lceil>1 / x\<rceil> \<le> 2 ^ nat ?k" by simp
  then have "real_of_int \<lceil>1 / x\<rceil> \<le> 2 ^ nat ?k"
    by (metis of_int_le_iff of_int_numeral of_int_power)
  then have "1 / x \<le> 2 ^ nat ?k" by linarith
  with assms have le: "1 / 2 ^ nat ?k \<le> x"
    by (simp add: field_simps)
  from n have "1 \<le> ?k" by (simp add: bitlen_alt_def)
  then have "pow2 (- ?k) = 1 / 2 ^ nat ?k"
    by (simp add: pow2_def)
  with le False show ?thesis by (simp add: binade_def)
qed

lemma roundHalfEven_near: "\<bar>real_of_int (roundHalfEven q) - q\<bar> \<le> 1 / 2"
  unfolding roundHalfEven_def Let_def by (auto; linarith)

lemma toDouble_near:
  assumes "0 < x"
  shows "\<bar>toDouble x - x\<bar> \<le> max x (pow2 (- 1022)) / 2 ^ 53"
proof -
  define ulp where "ulp = pow2 (max (binade x) (- 1022) - 52)"
  have pos: "0 < ulp" by (simp add: ulp_def pow2_powr)
  from assms have td: "toDouble x = real_of_int (roundHalfEven (x / ulp)) * ulp"
    by (simp add: toDouble_def ulp_def Let_def)
  have "toDouble x - x = (real_of_int (roundHalfEven (x / ulp)) - x / ulp) * ulp"
    using pos unfolding td by (simp add: field_simps)
  then have "\<bar>toDouble x - x\<bar> = \<bar>real_of_int (roundHalfEven (x / ulp)) - x / ulp\<bar> * ulp"
    using pos by (simp add: abs_mult)
  also have "\<dots> \<le> 1 / 2 * ulp"
    using roundHalfEven_near [of "x / ulp"] pos by (intro mult_right_mono) simp_all
  finally have near: "\<bar>toDouble x - x\<bar> \<le> ulp / 2" by simp
  have "ulp = max (pow2 (binade x)) (pow2 (- 1022)) / 2 ^ 52"
    unfolding ulp_def pow2_powr
    by (simp add: max_def powr_diff powr_realpow [symmetric] )
  also have "\<dots> \<le> max x (pow2 (- 1022)) / 2 ^ 52"
    using pow2_binade_le [OF assms] by (intro divide_right_mono) auto
  finally have "ulp / 2 \<le> max x (pow2 (- 1022)) / 2 ^ 53" by simp
  with near show ?thesis by linarith
qed

lemma roundHalfEven_nonneg: "0 \<le> q \<Longrightarrow> 0 \<le> roundHalfEven q"
  unfolding roundHalfEven_def Let_def by (auto; linarith)

lemma toDouble_nonneg:
  assumes "0 \<le> x"
  shows "0 \<le> toDouble x"
proof (cases "x = 0")
  case True
  then show ?thesis by simp
next
  case False
  with assms have x: "0 < x" by simp
  define ulp where "ulp = pow2 (max (binade x) (- 1022) - 52)"
  have pos: "0 < ulp" by (simp add: ulp_def pow2_powr)
  from x have td: "toDouble x = real_of_int (roundHalfEven (x / ulp)) * ulp"
    by (simp add: toDouble_def ulp_def Let_def)
  from x pos have "0 \<le> roundHalfEven (x / ulp)"
    by (intro roundHalfEven_nonneg) simp
  with pos show ?thesis unfolding td by simp
qed

lemma stored_rate_near:
  assumes "0 < u" and "c \<le> u"
  shows "\<bar>toDouble (toDouble (real c / real u) * 100) - 100 * real c / real u\<bar> \<le> 1 / 2 ^ 45"
proof (cases "c = 0")
  case True
  then show ?thesis by simp
next
  case False
  define y where "y = real c / real u"
  define z where "z = toDouble y * 100"
  from False assms have y: "0 < y" "y \<le> 1" by (simp_all add: y_def)
  have tiny: "pow2 (- 1022) \<le> 1" by (simp add: pow2_def)
  from y(2) tiny have "max y (pow2 (- 1022)) \<le> 1" by simp
  then have "max y (pow2 (- 1022)) / 2 ^ 53 \<le> 1 / 2 ^ 53"
    by (intro divide_right_mono) simp_all
  with toDouble_near [OF y(1)] have n1: "\<bar>toDouble y - y\<bar> \<le> 1 / 2 ^ 53"
    by linarith
  have "z - 100 * y = 100 * (toDouble y - y)"
    unfolding z_def by (simp add: algebra_simps)
  then have "\<bar>z - 100 * y\<bar> = 100 * \<bar>toDouble y - y\<bar>"
    by (simp only: abs_mult)
  also from n1 have "\<dots> \<le> 100 * (1 / 2 ^ 53)"
    by (intro mult_left_mono) simp_all
  finally have e1: "\<bar>z - 100 * y\<bar> \<le> 100 / 2 ^ 53"
    by simp
  from y(1) have "0 \<le> toDouble y" by (intro toDouble_nonneg) simp
  then have z0: "0 \<le> z" by (simp add: z_def)
  have e2: "\<bar>toDouble z - z\<bar> \<le> 128 / 2 ^ 53"
  proof (cases "z = 0")
    case True
    then show ?thesis by simp
  next
    case False
    with z0 have zpos: "0 < z" by simp
    have "(100 / 2 ^ 53 :: real) \<le> 1" by simp
    with e1 y(2) have "z \<le> 128" by linarith
    with tiny have "max z (pow2 (- 1022)) \<le> 128" by simp
    then have "max z (pow2 (- 1022)) / 2 ^ 53 \<le> 128 / 2 ^ 53"
      by (intro divide_right_mono) simp_all
    with toDouble_near [OF zpos] show ?thesis by linarith
  qed
  have "\<bar>toDouble z - 100 * y\<bar> \<le> \<bar>toDouble z - z\<bar> + \<bar>z - 100 * y\<bar>"
    by simp
  with e1 e2 have "\<bar>toDouble z - 100 * y\<bar> \<le> 128 / 2 ^ 53 + 100 / 2 ^ 53"
    by linarith
  also have "\<dots> \<le> (1 / 2 ^ 45 :: real)" by simp
  finally show ?thesis by (simp add: z_def y_def)
qed

text \<open>
  Claim C10, as the code has it. In every state the component reaches from its initial
  state by selecting experiments of the list, moving the rollout slider, starting and
  pausing, resetting and simulating users, the total is the sum of the variants' users,
  no variant has more conversions than users, and each stored rate is 0 for a variant
  without users and otherwise the double that \<open>(conversions / users) * 100\<close> evaluates
  to, rounded after the division and after the multiplication. The stored rate is
  exactly 0 without conversions and exactly 100 when every user converted, and it is
  never further than \<open>2^-45\<close> from \<open>100 * conversions / users\<close>.
\<close>

theorem reachable_counters_consistent:
  assumes "reachable st"
  shows "totalUsers st = sum_list (map users (results st))
       \<and> (\<forall>r \<in> set (results st).
             conversions r \<le> users r
             \<and> conversionRate r
                 = (if users r = 0 then 0
                    else toDouble (toDouble (real (conversions r) / real (users r)) * 100))
             \<and> (conversions r = 0 \<longrightarrow> conversionRate r = 0)
             \<and> (0 < users r \<and> conversions r = users r \<longrightarrow> conversionRate r = 100)
             \<and> (0 < users r \<longrightarrow>
                  \<bar>conversionRate r - 100 * real (conversions r) / real (users r)\<bar>
                    \<le> 1 / 2 ^ 45))"
proof -
  from reachable_invariant [OF assms] have c: "counters_consistent st" by simp
  have "\<bar>conversionRate r - 100 * real (conversions r) / real (users r)\<bar> \<le> 1 / 2 ^ 45"
    if "r \<in> set (results st)" and "0 < users r" for r
  proof -
    from c that have "conversions r \<le> users r"
      and "conversionRate r
             = toDouble (toDouble (real (conversions r) / real (users r)) * 100)"
      by (simp_all add: counters_consistent_def)
    with stored_rate_near [OF that(2), of "conversions r"] show ?thesis by simp
  qed
  with c show ?thesis
    by (auto simp add: counters_consistent_def)
qed

theorem reachable_counters_consistent_witness:
  "reachable
     \<lparr>selectedExperiment = experiments ! 0, isSimulating = False, totalUsers = 1,
      results = [\<lparr>variantId = ''control'', users = 1, conversions = 1, conversionRate = 100\<rparr>,
                 \<lparr>variantId = ''variant-a'', users = 0, conversions = 0, conversionRate = 0\<rparr>],
      rollout = 50\<rparr>
   \<and> totalUsers
     \<lparr>selectedExperiment = experiments ! 0, isSimulating = False, totalUsers = 1,
      results = [\<lparr>variantId = ''control'', users = 1, conversions = 1, conversionRate = 100\<rparr>,
                 \<lparr>variantId = ''variant-a'', users = 0, conversions = 0, conversionRate = 0\<rparr>],
      rollout = 50\<rparr> = 1 + 0
   \<and> toDouble (toDouble (real 1 / real 1) * 100) = 100"
proof -
  let ?st = "\<lparr>selectedExperiment = experiments ! 0, isSimulating = False, totalUsers = 1,
      results = [\<lparr>variantId = ''control'', users = 1, conversions = 1, conversionRate = 100\<rparr>,
                 \<lparr>variantId = ''variant-a'', users = 0, conversions = 0, conversionRate = 0\<rparr>],
      rollout = 50\<rparr>"
  have "simulateUser initialState (\<lambda>n. 0) = Inr (?st, \<lambda>n. 0)"
    by (simp add: simulateUser_def Math_random_def initialState_def initEffect_def
        mountState_def experiments_def zeroResults_def adjustedRate_def countUser_def)
  with reachable.init have r: "reachable ?st"
    by (rule reachable.simulate)
  from reachable_counters_consistent [OF r] r show ?thesis
    by simp
qed

text \<open>
  Three users in the control variant, the third one converting: the state is reached
  from the initial one, and the rate it stores for one conversion among three users is
  the double \<open>4691249611844266 / 2^47\<close>, printed 33.33333333333333, which is not
  \<open>100 * 1 / 3\<close>.
\<close>

theorem stored_rate_rounded_counterexample:
  "reachable
     \<lparr>selectedExperiment = experiments ! 0, isSimulating = False, totalUsers = 3,
      results = [\<lparr>variantId = ''control'', users = 3, conversions = 1,
                  conversionRate = 4691249611844266 / 2 ^ 47\<rparr>,
                 \<lparr>variantId = ''variant-a'', users = 0, conversions = 0, conversionRate = 0\<rparr>],
      rollout = 50\<rparr>
   \<and> (4691249611844266 / 2 ^ 47 :: real) \<noteq> 100 * real 1 / real 3"
proof -
  let ?miss = "\<lambda>n::nat. if n = Suc (Suc (Suc 0)) then 1 / 2 else (0::real)"
  let ?s1 = "\<lparr>selectedExperiment = experiments ! 0, isSimulating = False, totalUsers = 1,
      results = [\<lparr>variantId = ''control'', users = 1, conversions = 0, conversionRate = 0\<rparr>,
                 \<lparr>variantId = ''variant-a'', users = 0, conversions = 0, conversionRate = 0\<rparr>],
      rollout = 50\<rparr>"
  let ?s2 = "\<lparr>selectedExperiment = experiments ! 0, isSimulating = False, totalUsers = 2,
      results = [\<lparr>variantId = ''control'', users = 2, conversions = 0, conversionRate = 0\<rparr>,
                 \<lparr>variantId = ''variant-a'', users = 0, conversions = 0, conversionRate = 0\<rparr>],
      rollout = 50\<rparr>"
  let ?s3 = "\<lparr>selectedExperiment = experiments ! 0, isSimulating = False, totalUsers = 3,
      results = [\<lparr>variantId = ''control'', users = 3, conversions = 1,
                  conversionRate = 4691249611844266 / 2 ^ 47\<rparr>,
                 \<lparr>variantId = ''variant-a'', users = 0, conversions = 0, conversionRate = 0\<rparr>],
      rollout = 50\<rparr>"
  have "simulateUser initialState ?miss = Inr (?s1, \<lambda>n. 0)"
    by (simp add: simulateUser_def Math_random_def initialState_def initEffect_def
        mountState_def experiments_def zeroResults_def adjustedRate_def countUser_def)
  with reachable.init have r1: "reachable ?s1"
    by (rule reachable.simulate)
  have "simulateUser ?s1 ?miss = Inr (?s2, \<lambda>n. 0)"
    by (simp add: simulateUser_def Math_random_def experiments_def adjustedRate_def
        countUser_def)
  with r1 have r2: "reachable ?s2"
    by (rule reachable.simulate)
  have third: "toDouble (toDouble (1 / 3) * 100) = 4691249611844266 / 2 ^ 47"
    by (simp add: toDouble_def binade_def roundHalfEven_def pow2_def compute_bitlen)
  have "simulateUser ?s2 (\<lambda>n. 0) = Inr (?s3, \<lambda>n. 0)"
    by (simp add: simulateUser_def Math_random_def experiments_def adjustedRate_def
        countUser_def third)
  with r2 have "reachable ?s3"
    by (rule reachable.simulate)
  then show ?thesis by simp
qed


section \<open>The simulator: the conversion draw\<close>






end
